theory Spec2Isabelle
  imports Complex_Main "HOL-Library.Multiset"
begin

section \<open>Python values shared by the embedding of \<^verbatim>\<open>dedupe/api.py\<close>\<close>

text \<open>
  Exceptions are values. A function of the source that can raise returns
  \<open>py_exn + 'a\<close>; a generator function returns the items it yielded together with the
  exception that ended it, if any (\<open>yielded\<close>, \<open>raised\<close>). Assertions are taken as
  enabled (the interpreter's default).
\<close>

datatype py_exn =
    AssertionError string
  | KeyError
  | AttributeError
  | EOFError
  | UnpicklingError
  | OperationalError string
  | SettingsFileLoadingException string
  | OtherError string

type_synonym 'a gen = "'a list \<times> py_exn option"

definition yielded :: "'a gen \<Rightarrow> 'a list" where
  "yielded g = fst g"

definition raised :: "'a gen \<Rightarrow> py_exn option" where
  "raised g = snd g"

text \<open>
  A dataset (\<open>Data\<close>) is a Python dict from record ids to records; it is kept in the
  order of \<open>data.items()\<close>, and \<open>data[k]\<close> is \<open>map_of data k\<close> (\<open>None\<close> is the
  \<open>KeyError\<close>). A record (\<open>RecordDict\<close>) is a dict from field names to values. A table
  of block postings holds rows \<open>(block_key, record_id)\<close>; block keys are text. Scores
  are probabilities, taken as real numbers.
\<close>

type_synonym ('id, 'r) data = "('id \<times> 'r) list"
type_synonym 'v record_dict = "(string \<times> 'v) list"
type_synonym 'id postings = "(string \<times> 'id) list"
type_synonym ('id, 'r) record_pair = "('id \<times> 'r) \<times> ('id \<times> 'r)"
type_synonym 'id scored_pair = "('id \<times> 'id) \<times> real"
type_synonym 'id cluster = "'id list \<times> real list"

text \<open>
  The blocker (\<open>dedupe.blocking.Blocker\<close>) is a collaborator whose code is not part of
  \<^verbatim>\<open>api.py\<close>: its operations are parameters, over an abstract blocker state \<open>'b\<close>.
  \<open>call b records target\<close> is \<open>self.blocker(records, target=target)\<close>, the stream of
  \<open>(block_key, record_id)\<close> rows; \<open>unindex_field b values field\<close> is
  \<open>self.blocker.unindex(values, field)\<close>. A matcher's \<open>blocker\<close> attribute is
  \<open>None\<close> or a blocker, and \<open>assert self.blocker\<close> fails on \<open>None\<close>.
\<close>

record ('b, 'id, 'r, 'v) blocking =
  indexAll :: "'b \<Rightarrow> ('id, 'r) data \<Rightarrow> 'b"
  call :: "'b \<Rightarrow> ('id \<times> 'r) list \<Rightarrow> bool \<Rightarrow> 'id postings"
  resetIndices :: "'b \<Rightarrow> 'b"
  index_fields :: "'b \<Rightarrow> string list"
  unindex_field :: "'b \<Rightarrow> 'v set \<Rightarrow> string \<Rightarrow> 'b"

text \<open>
  \<open>class Matching\<close>. \<open>__init__\<close> assigns \<open>num_cores\<close> and \<open>blocker\<close> only; the
  attributes \<open>data_model\<close>, \<open>classifier\<close> and \<open>predicates\<close> are set by the subclasses
  and are Python objects of one dynamic type \<open>'o\<close>. An attribute that has not been set is
  \<open>None\<close> here, and reading it is an \<open>AttributeError\<close>.
\<close>

record ('b, 'o) matching =
  num_cores :: nat
  blocker :: "'b option"
  data_model :: "'o option"
  classifier :: "'o option"
  predicates :: "'o option"

definition Matching_init :: "nat \<Rightarrow> nat option \<Rightarrow> ('b, 'o) matching" where
  "Matching_init cpu_count n =
     \<lparr> num_cores = (case n of None \<Rightarrow> cpu_count | Some k \<Rightarrow> k),
       blocker = None, data_model = None, classifier = None, predicates = None \<rparr>"

section \<open>\<^verbatim>\<open>IntegralMatching.score\<close>\<close>

text \<open>
  \<open>core.scoreDuplicates\<close> is a parameter (its module is not part of \<^verbatim>\<open>api.py\<close>).
\<close>

definition score ::
  "(('id, 'r) record_pair list \<Rightarrow> 'o \<Rightarrow> 'o \<Rightarrow> nat \<Rightarrow> real \<Rightarrow> py_exn + 'id scored_pair list) \<Rightarrow>
   ('b, 'o, 'z) matching_scheme \<Rightarrow> ('id, 'r) record_pair list \<Rightarrow> real \<Rightarrow>
   py_exn + 'id scored_pair list" where
  "score scoreDuplicates m ps threshold =
     (case data_model m of
        None \<Rightarrow> Inl AttributeError
      | Some dm \<Rightarrow>
          (case classifier m of
             None \<Rightarrow> Inl AttributeError
           | Some clf \<Rightarrow> scoreDuplicates ps dm clf (num_cores m) threshold))"

section \<open>\<^verbatim>\<open>DedupeMatching.pairs\<close>\<close>

text \<open>
  \<^verbatim>\<open>SELECT DISTINCT a.record_id, b.record_id FROM blocking_map a
  INNER JOIN blocking_map b USING (block_key) WHERE a.record_id < b.record_id\<close>:
  the equi-join of the table with itself on the block key, filtered by the ordering of the
  ids; \<open>DISTINCT\<close> keeps one copy of each result row. The order \<open><\<close> on ids is
  the one sqlite applies to the id column, a linear order; the order of the result rows is
  not specified by sqlite and is fixed here as the order of the join.
\<close>

definition select_distinct_self_join :: "('id::linorder) postings \<Rightarrow> ('id \<times> 'id) list" where
  "select_distinct_self_join blocking_map =
     remdups [(snd a, snd b). a \<leftarrow> blocking_map, b \<leftarrow> blocking_map,
                               fst a = fst b, snd a < snd b]"

text \<open>
  The loop \<^verbatim>\<open>for a_record_id, b_record_id in pairs: yield ((a, data[a]), (b, data[b]))\<close>:
  a missing id ends the generator with \<open>KeyError\<close>.
\<close>

fun yield_record_pairs ::
  "('id, 'r) data \<Rightarrow> ('id \<times> 'id) list \<Rightarrow> ('id, 'r) record_pair gen" where
  "yield_record_pairs data [] = ([], None)"
| "yield_record_pairs data ((a, b) # ps) =
     (case map_of data a of
        None \<Rightarrow> ([], Some KeyError)
      | Some ra \<Rightarrow>
          (case map_of data b of
             None \<Rightarrow> ([], Some KeyError)
           | Some rb \<Rightarrow>
               (case yield_record_pairs data ps of
                  (ys, e) \<Rightarrow> (((a, ra), (b, rb)) # ys, e))))"

text \<open>
  \<open>pairs\<close> returns the generator's outcome and the matcher afterwards (its blocker has
  been indexed and reset). \<open>sqlite_id_type\<close> is \<open>core.sqlite_id_type\<close>, a parameter;
  the column type it returns only names the affinity of the id column.
\<close>

definition pairs ::
  "('b, 'id::linorder, 'r, 'v) blocking \<Rightarrow> (('id, 'r) data \<Rightarrow> py_exn + string) \<Rightarrow>
   ('b, 'o, 'z) matching_scheme \<Rightarrow> ('id, 'r) data \<Rightarrow>
   ('id, 'r) record_pair gen \<times> ('b, 'o, 'z) matching_scheme" where
  "pairs B sqlite_id_type m data =
     (case blocker m of
        None \<Rightarrow> (([], Some (AssertionError [])), m)
      | Some b \<Rightarrow>
          (let b1 = indexAll B b data in
           case sqlite_id_type data of
             Inl e \<Rightarrow> (([], Some e), m\<lparr>blocker := Some b1\<rparr>)
           | Inr id_type \<Rightarrow>
               (let blocking_map = call B b1 data False;
                    b2 = resetIndices B b1
                in (yield_record_pairs data (select_distinct_self_join blocking_map),
                    m\<lparr>blocker := Some b2\<rparr>))))"

definition pair_ids :: "('id, 'r) record_pair list \<Rightarrow> ('id \<times> 'id) list" where
  "pair_ids ps = map (\<lambda>(a, b). (fst a, fst b)) ps"

section \<open>\<^verbatim>\<open>DedupeMatching._add_singletons\<close> and \<^verbatim>\<open>DedupeMatching.partition\<close>\<close>

text \<open>
  \<open>singletons = set(data.keys())\<close> is the list of keys without repetition;
  \<open>singletons.difference_update(record_ids)\<close> removes the ids of a cluster. The clusters
  are yielded unchanged, then one cluster \<open>((singleton,), (1.0,))\<close> for each id left. The
  order in which Python iterates the set is not specified; the model takes the order of the
  keys, and the theorems below speak of membership only.
\<close>

definition difference_update :: "'id list \<Rightarrow> 'id list \<Rightarrow> 'id list" where
  "difference_update singletons record_ids = filter (\<lambda>k. k \<notin> set record_ids) singletons"

definition add_singletons :: "('id, 'r) data \<Rightarrow> 'id cluster list \<Rightarrow> 'id cluster list" where
  "add_singletons data clusters =
     (let singletons = foldl (\<lambda>s (record_ids, score). difference_update s record_ids)
                             (remdups (map fst data)) clusters
      in clusters @ map (\<lambda>singleton. ([singleton], [1])) singletons)"

text \<open>
  \<open>partition\<close>: \<open>clustering.cluster\<close> is a parameter \<open>cluster\<close> (its module is not
  part of \<^verbatim>\<open>api.py\<close>). \<open>list(pairs)\<close> re-raises what ended the pair generator;
  \<open>self.score\<close> is called with its default threshold \<open>0.0\<close>.
\<close>

definition partition_data ::
  "('b, 'id::linorder, 'r, 'v) blocking \<Rightarrow> (('id, 'r) data \<Rightarrow> py_exn + string) \<Rightarrow>
   (('id, 'r) record_pair list \<Rightarrow> 'o \<Rightarrow> 'o \<Rightarrow> nat \<Rightarrow> real \<Rightarrow> py_exn + 'id scored_pair list) \<Rightarrow>
   ('id scored_pair list \<Rightarrow> real \<Rightarrow> 'id cluster list) \<Rightarrow>
   ('b, 'o, 'z) matching_scheme \<Rightarrow> ('id, 'r) data \<Rightarrow> real \<Rightarrow> py_exn + 'id cluster list" where
  "partition_data B sqlite_id_type scoreDuplicates cluster m data threshold =
     (case pairs B sqlite_id_type m data of
        (g, m1) \<Rightarrow>
          (case raised g of
             Some e \<Rightarrow> Inl e
           | None \<Rightarrow>
               (case score scoreDuplicates m1 (yielded g) 0 of
                  Inl e \<Rightarrow> Inl e
                | Inr pair_scores \<Rightarrow>
                    Inr (add_singletons data (cluster pair_scores threshold)))))"

section \<open>\<^verbatim>\<open>RecordLinkMatching.one_to_one\<close> and \<^verbatim>\<open>RecordLinkMatching.many_to_one\<close>\<close>

text \<open>
  Both methods delegate to \<open>dedupe.clustering\<close>, which is not part of \<^verbatim>\<open>api.py\<close>.
  Sorting by descending score is a stable sort on the negated score: pairs of equal score
  keep the order of the input.
\<close>

definition sort_descending :: "'id scored_pair list \<Rightarrow> 'id scored_pair list" where
  "sort_descending scores = sort_key (\<lambda>link. - snd link) scores"

text \<open>
  Modelled from the spec: \<open>clustering.greedyMatching\<close> is missing from the sources. The
  spec's one-to-one linkage: sort all scored pairs by descending score; repeatedly accept
  the highest remaining pair whose both endpoints are still unmatched, discard pairs
  touching an already-matched endpoint, stop when no pairs remain. In the spec's scenario 7
  the pair \<open>(2, 4)\<close> is discarded because \<open>2\<close> was consumed by \<open>(1, 2)\<close>: the matched
  endpoints form one set.
\<close>

fun greedy_scan :: "'id set \<Rightarrow> 'id scored_pair list \<Rightarrow> 'id scored_pair list" where
  "greedy_scan matched [] = []"
| "greedy_scan matched (((a, b), s) # rest) =
     (if a \<notin> matched \<and> b \<notin> matched
      then ((a, b), s) # greedy_scan (insert a (insert b matched)) rest
      else greedy_scan matched rest)"

definition greedyMatching :: "'id scored_pair list \<Rightarrow> 'id scored_pair list" where
  "greedyMatching dupes = greedy_scan {} (sort_descending dupes)"

definition one_to_one :: "'id scored_pair list \<Rightarrow> 'id scored_pair list" where
  "one_to_one scores = greedyMatching scores"

text \<open>The two record ids a scored pair links.\<close>

definition endpoints :: "'id scored_pair \<Rightarrow> 'id set" where
  "endpoints link = {fst (fst link), snd (fst link)}"

text \<open>
  Modelled from the spec: \<open>clustering.gazetteMatching\<close> is missing from the sources. The
  spec's many-to-n gazetteer matching: the input is already grouped by query record; for
  each query group, sort candidates by descending score and truncate to \<open>n_matches\<close>
  (unbounded if \<open>n_matches\<close> is unset). The threshold of the spec's sentence is applied
  by the scorer (\<open>GazetteerMatching.score\<close>) before the groups arrive here.
\<close>

definition truncate_matches :: "nat option \<Rightarrow> 'a list \<Rightarrow> 'a list" where
  "truncate_matches n_matches block = (case n_matches of None \<Rightarrow> block | Some n \<Rightarrow> take n block)"

definition gazetteMatching ::
  "'id scored_pair list list \<Rightarrow> nat option \<Rightarrow> 'id scored_pair list list" where
  "gazetteMatching scored_blocks n_matches =
     map (\<lambda>block. truncate_matches n_matches (sort_descending block)) scored_blocks"






section \<open>\<^verbatim>\<open>class GazetteerMatching\<close>\<close>

text \<open>
  The matcher's sqlite connection holds one table, \<open>indexed_records\<close>; it is \<open>None\<close>
  until \<open>index\<close> has created it. \<open>committed_records\<close> is the table as of the last
  commit. \<open>indexed_data\<close> is the dict of the indexed records.
\<close>

record ('b, 'o, 'id, 'r) gazetteer = "('b, 'o) matching" +
  indexed_records :: "'id postings option"
  committed_records :: "'id postings option"
  indexed_data :: "'id \<rightharpoonup> 'r"

definition GazetteerMatching_init :: "nat \<Rightarrow> nat option \<Rightarrow> ('b, 'o, 'id, 'r) gazetteer" where
  "GazetteerMatching_init cpu_count n =
     matching.extend (Matching_init cpu_count n)
       (gazetteer.fields None None Map.empty)"

text \<open>
  \<^verbatim>\<open>REPLACE INTO indexed_records VALUES (?, ?)\<close> on a table with
  \<^verbatim>\<open>UNIQUE(block_key, record_id)\<close>: the rows that conflict with the new row are the
  rows equal to it; they are deleted and the new row is inserted.
\<close>

definition replace_into :: "'id postings \<Rightarrow> string \<times> 'id \<Rightarrow> 'id postings" where
  "replace_into table row = filter (\<lambda>r. r \<noteq> row) table @ [row]"

definition dict_update :: "('id \<rightharpoonup> 'r) \<Rightarrow> ('id, 'r) data \<Rightarrow> ('id \<rightharpoonup> 'r)" where
  "dict_update d data = fold (\<lambda>(k, v) d'. d'(k \<mapsto> v)) data d"

definition index ::
  "('b, 'id, 'r, 'v) blocking \<Rightarrow> (('id, 'r) data \<Rightarrow> py_exn + string) \<Rightarrow>
   ('b, 'o, 'id, 'r) gazetteer \<Rightarrow> ('id, 'r) data \<Rightarrow>
   ('b, 'o, 'id, 'r) gazetteer \<times> py_exn option" where
  "index B sqlite_id_type g data =
     (case blocker g of
        None \<Rightarrow> (g, Some (AssertionError []))
      | Some b \<Rightarrow>
          (let b1 = indexAll B b data; g1 = g\<lparr>blocker := Some b1\<rparr> in
           case sqlite_id_type data of
             Inl e \<Rightarrow> (g1, Some e)
           | Inr id_type \<Rightarrow>
               (let created = (case indexed_records g1 of None \<Rightarrow> [] | Some t \<Rightarrow> t);
                    replaced = fold (\<lambda>row t. replace_into t row) (call B b1 data True) created
                in (g1\<lparr>indexed_records := Some replaced,
                        committed_records := Some replaced,
                        indexed_data := dict_update (indexed_data g1) data\<rparr>, None))))"

text \<open>
  \<open>unindex\<close>. The loop over \<open>self.blocker.index_fields\<close> reads \<open>record[field]\<close> of every
  record (\<open>KeyError\<close> when a record has no such field). The \<^verbatim>\<open>DELETE\<close> needs
  the table (\<open>OperationalError\<close> otherwise) and is committed. Then
  \<^verbatim>\<open>for k in data: del self.indexed_data[k]\<close> stops at the first id that is not a key.
\<close>

fun field_values :: "string \<Rightarrow> 'v record_dict list \<Rightarrow> py_exn + 'v list" where
  "field_values field [] = Inr []"
| "field_values field (record # records) =
     (case map_of record field of
        None \<Rightarrow> Inl KeyError
      | Some v \<Rightarrow>
          (case field_values field records of
             Inl e \<Rightarrow> Inl e
           | Inr vs \<Rightarrow> Inr (v # vs)))"

fun unindex_fields ::
  "('b, 'id, 'v record_dict, 'v) blocking \<Rightarrow> 'b \<Rightarrow> string list \<Rightarrow> 'v record_dict list \<Rightarrow> 'b \<times> py_exn option" where
  "unindex_fields B b [] records = (b, None)"
| "unindex_fields B b (field # more_fields) records =
     (case field_values field records of
        Inl e \<Rightarrow> (b, Some e)
      | Inr vs \<Rightarrow> unindex_fields B (unindex_field B b (set vs) field) more_fields records)"

fun del_keys :: "('id \<rightharpoonup> 'r) \<Rightarrow> 'id list \<Rightarrow> ('id \<rightharpoonup> 'r) \<times> py_exn option" where
  "del_keys d [] = (d, None)"
| "del_keys d (k # ks) =
     (case d k of
        None \<Rightarrow> (d, Some KeyError)
      | Some r \<Rightarrow> del_keys (d(k := None)) ks)"

definition delete_record_ids :: "'id postings \<Rightarrow> 'id list \<Rightarrow> 'id postings" where
  "delete_record_ids table ks = filter (\<lambda>row. snd row \<notin> set ks) table"

definition unindex ::
  "('b, 'id, 'v record_dict, 'v) blocking \<Rightarrow> ('b, 'o, 'id, 'v record_dict) gazetteer \<Rightarrow>
   ('id, 'v record_dict) data \<Rightarrow> ('b, 'o, 'id, 'v record_dict) gazetteer \<times> py_exn option" where
  "unindex B g data =
     (case blocker g of
        None \<Rightarrow> (g, Some (AssertionError []))
      | Some b \<Rightarrow>
          (case unindex_fields B b (index_fields B b) (map snd data) of
             (b1, Some e) \<Rightarrow> (g\<lparr>blocker := Some b1\<rparr>, Some e)
           | (b1, None) \<Rightarrow>
               (let g1 = g\<lparr>blocker := Some b1\<rparr> in
                case indexed_records g1 of
                  None \<Rightarrow> (g1, Some (OperationalError ''no such table: indexed_records''))
                | Some table \<Rightarrow>
                    (let deleted = delete_record_ids table (map fst data);
                         g2 = g1\<lparr>indexed_records := Some deleted,
                                 committed_records := Some deleted\<rparr>
                     in case del_keys (indexed_data g2) (map fst data) of
                          (d, e) \<Rightarrow> (g2\<lparr>indexed_data := d\<rparr>, e)))))"

text \<open>
  \<open>blocks\<close>. The query records' postings go to a temporary table; then
  \<^verbatim>\<open>SELECT DISTINCT a.record_id, b.record_id FROM blocking_map a
  INNER JOIN indexed_records b USING (block_key) ORDER BY a.record_id\<close>,
  and \<open>itertools.groupby\<close> on the first id cuts the rows into one block per query record.
  Each block is built whole (a list comprehension) before it is yielded.
\<close>

definition select_distinct_join ::
  "('id::linorder) postings \<Rightarrow> 'id postings \<Rightarrow> ('id \<times> 'id) list" where
  "select_distinct_join blocking_map indexed =
     sort_key fst (remdups [(snd a, snd b). a \<leftarrow> blocking_map, b \<leftarrow> indexed, fst a = fst b])"

fun groupby :: "('a \<Rightarrow> 'k) \<Rightarrow> 'a list \<Rightarrow> ('k \<times> 'a list) list" where
  "groupby key [] = []"
| "groupby key (x # xs) =
     (case groupby key xs of
        [] \<Rightarrow> [(key x, [x])]
      | (k, grp) # groups \<Rightarrow>
          (if k = key x then (k, x # grp) # groups else (key x, [x]) # (k, grp) # groups))"

fun lookup_block ::
  "('id, 'r) data \<Rightarrow> ('id \<rightharpoonup> 'r) \<Rightarrow> ('id \<times> 'id) list \<Rightarrow> py_exn + ('id, 'r) record_pair list" where
  "lookup_block data_1 indexed [] = Inr []"
| "lookup_block data_1 indexed ((a, b) # rest) =
     (case map_of data_1 a of
        None \<Rightarrow> Inl KeyError
      | Some ra \<Rightarrow>
          (case indexed b of
             None \<Rightarrow> Inl KeyError
           | Some rb \<Rightarrow>
               (case lookup_block data_1 indexed rest of
                  Inl e \<Rightarrow> Inl e
                | Inr ps \<Rightarrow> Inr (((a, ra), (b, rb)) # ps))))"

fun yield_blocks ::
  "('id, 'r) data \<Rightarrow> ('id \<rightharpoonup> 'r) \<Rightarrow> ('id \<times> ('id \<times> 'id) list) list \<Rightarrow>
   ('id, 'r) record_pair list gen" where
  "yield_blocks data_1 indexed [] = ([], None)"
| "yield_blocks data_1 indexed ((k, pair_block) # pair_blocks) =
     (case lookup_block data_1 indexed pair_block of
        Inl e \<Rightarrow> ([], Some e)
      | Inr block \<Rightarrow>
          (case yield_blocks data_1 indexed pair_blocks of
             (ys, e) \<Rightarrow> (block # ys, e)))"

definition blocks ::
  "('b, 'id::linorder, 'r, 'v) blocking \<Rightarrow> (('id, 'r) data \<Rightarrow> py_exn + string) \<Rightarrow>
   ('b, 'o, 'id, 'r) gazetteer \<Rightarrow> ('id, 'r) data \<Rightarrow> ('id, 'r) record_pair list gen" where
  "blocks B sqlite_id_type g data_1 =
     (case blocker g of
        None \<Rightarrow> ([], Some (AssertionError []))
      | Some b \<Rightarrow>
          (case sqlite_id_type data_1 of
             Inl e \<Rightarrow> ([], Some e)
           | Inr id_type \<Rightarrow>
               (let blocking_map = call B b data_1 False in
                case indexed_records g of
                  None \<Rightarrow> ([], Some (OperationalError ''no such table: indexed_records''))
                | Some indexed \<Rightarrow>
                    yield_blocks data_1 (indexed_data g)
                      (groupby fst (select_distinct_join blocking_map indexed)))))"

text \<open>
  \<open>_format_search_results\<close>. For every result, \<open>a\<close> starts as \<open>None\<close> and ends as the
  query id of the result's last link. The set \<open>seen\<close> is created empty and the function
  never adds to it, so \<open>search_d.keys() - seen\<close> is every key of \<open>search_d\<close>.
\<close>

definition prepare_result :: "'id scored_pair list \<Rightarrow> 'id option \<times> ('id \<times> real) list" where
  "prepare_result result =
     (if result = [] then None else Some (fst (fst (last result))),
      map (\<lambda>((a, b), s). (b, s)) result)"

definition format_search_results ::
  "('id, 'r) data \<Rightarrow> 'id scored_pair list list \<Rightarrow> ('id option \<times> ('id \<times> real) list) list" where
  "format_search_results search_d results =
     (let seen = {} in
      map prepare_result results
      @ map (\<lambda>k. (Some k, [])) (filter (\<lambda>k. k \<notin> seen) (remdups (map fst search_d))))"

text \<open>
  \<open>GazetteerMatching.score\<close> calls \<open>core.scoreGazette\<close>, \<open>many_to_n\<close> calls
  \<open>clustering.gazetteMatching\<close>: both are parameters of \<open>search\<close>. \<open>search\<close> is
  modelled with \<open>generator=False\<close>: \<open>list(results)\<close> re-raises any exception of the
  pipeline.
\<close>

definition score_blocks ::
  "(('id, 'r) record_pair list list \<Rightarrow> 'o \<Rightarrow> 'o \<Rightarrow> nat \<Rightarrow> real \<Rightarrow> py_exn + 'id scored_pair list list) \<Rightarrow>
   ('b, 'o, 'z) matching_scheme \<Rightarrow> ('id, 'r) record_pair list list \<Rightarrow> real \<Rightarrow>
   py_exn + 'id scored_pair list list" where
  "score_blocks scoreGazette m bs threshold =
     (case data_model m of
        None \<Rightarrow> Inl AttributeError
      | Some dm \<Rightarrow>
          (case classifier m of
             None \<Rightarrow> Inl AttributeError
           | Some clf \<Rightarrow> scoreGazette bs dm clf (num_cores m) threshold))"

definition search ::
  "('b, 'id::linorder, 'r, 'v) blocking \<Rightarrow> (('id, 'r) data \<Rightarrow> py_exn + string) \<Rightarrow>
   (('id, 'r) record_pair list list \<Rightarrow> 'o \<Rightarrow> 'o \<Rightarrow> nat \<Rightarrow> real \<Rightarrow> py_exn + 'id scored_pair list list) \<Rightarrow>
   ('id scored_pair list list \<Rightarrow> nat option \<Rightarrow> 'id scored_pair list list) \<Rightarrow>
   ('b, 'o, 'id, 'r) gazetteer \<Rightarrow> ('id, 'r) data \<Rightarrow> real \<Rightarrow> nat option \<Rightarrow>
   py_exn + ('id option \<times> ('id \<times> real) list) list" where
  "search B sqlite_id_type scoreGazette many_to_n g messy_data threshold n_matches =
     (case blocks B sqlite_id_type g messy_data of
        (bs, Some e) \<Rightarrow> Inl e
      | (bs, None) \<Rightarrow>
          (case score_blocks scoreGazette g bs threshold of
             Inl e \<Rightarrow> Inl e
           | Inr pair_scores \<Rightarrow>
               Inr (format_search_results messy_data (many_to_n pair_scores n_matches))))"

section \<open>\<^verbatim>\<open>ActiveMatching.write_settings\<close> and \<^verbatim>\<open>StaticMatching.__init__\<close>\<close>

text \<open>
  A settings file is a sequence of bytes. \<open>pickle\<close> is a parameter: \<open>dumps x\<close> is the
  bytes \<open>pickle.dump\<close> writes for \<open>x\<close> (or the exception it raises), and
  \<open>load f\<close> reads one object from the front of the file \<open>f\<close> and returns it with
  the rest of the file (or raises). \<open>dump\<close> is \<open>pickle.dump(self.attribute, file_obj)\<close>:
  reading an attribute that is not set raises \<open>AttributeError\<close>, and a dump that
  raises is taken to have written nothing.
\<close>

type_synonym bytes = "nat list"

record 'o pickle =
  dumps :: "'o \<Rightarrow> py_exn + bytes"
  load :: "bytes \<Rightarrow> py_exn + ('o \<times> bytes)"

definition dump :: "'o pickle \<Rightarrow> 'o option \<Rightarrow> bytes \<Rightarrow> bytes \<times> py_exn option" where
  "dump P attribute file_obj =
     (case attribute of
        None \<Rightarrow> (file_obj, Some AttributeError)
      | Some x \<Rightarrow>
          (case dumps P x of
             Inl e \<Rightarrow> (file_obj, Some e)
           | Inr written \<Rightarrow> (file_obj @ written, None)))"

definition write_settings ::
  "'o pickle \<Rightarrow> ('b, 'o, 'z) matching_scheme \<Rightarrow> bytes \<Rightarrow> bytes \<times> py_exn option" where
  "write_settings P m file_obj =
     (case dump P (data_model m) file_obj of
        (f1, Some e) \<Rightarrow> (f1, Some e)
      | (f1, None) \<Rightarrow>
          (case dump P (classifier m) f1 of
             (f2, Some e) \<Rightarrow> (f2, Some e)
           | (f2, None) \<Rightarrow> dump P (predicates m) f2))"

definition incompatible_message :: string where
  "incompatible_message =
     ''This settings file is not compatible with the current version of dedupe. '' @
     ''This can happen if you have recently upgraded dedupe.''"

definition loading_message :: string where
  "loading_message =
     ''Something has gone wrong with loading the settings file. Try deleting the file''"

text \<open>The body of the \<open>try\<close>: three loads, in the order data model, classifier, predicates.\<close>

definition load_settings :: "'o pickle \<Rightarrow> bytes \<Rightarrow> py_exn + ('o \<times> 'o \<times> 'o)" where
  "load_settings P settings_file =
     (case load P settings_file of
        Inl e \<Rightarrow> Inl e
      | Inr (dm, f1) \<Rightarrow>
          (case load P f1 of
             Inl e \<Rightarrow> Inl e
           | Inr (clf, f2) \<Rightarrow>
               (case load P f2 of
                  Inl e \<Rightarrow> Inl e
                | Inr (preds, f3) \<Rightarrow> Inr (dm, clf, preds))))"

text \<open>
  \<open>StaticMatching.__init__\<close>: \<open>except (KeyError, AttributeError)\<close> raises the exception
  with the message about the version, the bare \<open>except\<close> raises it with the other message
  for every other exception. \<open>Blocker\<close> is the constructor \<open>blocking.Blocker\<close>.
\<close>

definition StaticMatching_init ::
  "'o pickle \<Rightarrow> ('o \<Rightarrow> 'b) \<Rightarrow> nat \<Rightarrow> bytes \<Rightarrow> nat option \<Rightarrow> py_exn + ('b, 'o) matching" where
  "StaticMatching_init P Blocker cpu_count settings_file n =
     (let self = Matching_init cpu_count n in
      case load_settings P settings_file of
        Inl e \<Rightarrow>
          (if e = KeyError \<or> e = AttributeError
           then Inl (SettingsFileLoadingException incompatible_message)
           else Inl (SettingsFileLoadingException loading_message))
      | Inr (dm, clf, preds) \<Rightarrow>
          Inr (self\<lparr>data_model := Some dm, classifier := Some clf,
                    predicates := Some preds, blocker := Some (Blocker preds)\<rparr>))"

section \<open>\<^verbatim>\<open>class ActiveMatching\<close>\<close>

text \<open>
  \<open>ActiveMatching.__init__\<close> builds the data model (\<open>datamodel.DataModel\<close>, a
  parameter), has the class attribute \<open>classifier\<close>, empty training pairs and no active
  learner. The learner (\<open>dedupe.labeler\<close>) is a collaborator: \<open>truthy\<close> is the truth
  value Python gives the learner object in \<open>assert self.active_learner\<close>, and \<open>pop\<close>
  is its method, which returns the selected pair and the learner afterwards, or raises.
\<close>

record ('b, 'o, 'l, 'ex) active_matching = "('b, 'o) matching" +
  training_match :: "'ex list"
  training_distinct :: "'ex list"
  active_learner :: "'l option"



section \<open>Concrete collaborators and data for the runs below\<close>

text \<open>
  An example blocker: one block key per field of the record, the field name joined to its
  value. It has no index predicates.
\<close>

definition field_blocking :: "(unit, int, string record_dict, string) blocking" where
  "field_blocking =
     \<lparr> indexAll = (\<lambda>b d. b),
       call = (\<lambda>b records target.
                 concat (map (\<lambda>(i, r). map (\<lambda>(f, v). (f @ '':'' @ v, i)) r) records)),
       resetIndices = (\<lambda>b. b),
       index_fields = (\<lambda>b. []),
       unindex_field = (\<lambda>b vs f. b) \<rparr>"

definition integer_ids :: "(int, 'r) data \<Rightarrow> py_exn + string" where
  "integer_ids d = Inr ''integer''"

definition people :: "(int, string record_dict) data" where
  "people =
     [(1, [(''name'', ''Pat''), (''city'', ''Ayr'')]),
      (2, [(''name'', ''Pat''), (''city'', ''Ayr'')]),
      (3, [(''name'', ''Sam''), (''city'', ''Ayr'')])]"

definition dedupe_matcher :: "(unit, nat) matching" where
  "dedupe_matcher =
     \<lparr> num_cores = 1, blocker = Some (), data_model = Some 0, classifier = Some 0,
       predicates = Some 0 \<rparr>"

text \<open>
  An example scorer (every pair scores \<open>0.9\<close>; pairs under the threshold are dropped)
  and an example clustering function, which makes one cluster of the first pair at or above
  the threshold.
\<close>

definition constant_scores ::
  "('id, 'r) record_pair list \<Rightarrow> 'o \<Rightarrow> 'o \<Rightarrow> nat \<Rightarrow> real \<Rightarrow> py_exn + 'id scored_pair list" where
  "constant_scores ps dm clf cores threshold =
     Inr (filter (\<lambda>link. threshold \<le> snd link) (map (\<lambda>(a, b). ((fst a, fst b), 9 / 10)) ps))"

definition first_pair_cluster :: "'id scored_pair list \<Rightarrow> real \<Rightarrow> 'id cluster list" where
  "first_pair_cluster scores threshold =
     (case filter (\<lambda>((a, b), s). a \<noteq> b \<and> threshold \<le> s) scores of
        [] \<Rightarrow> []
      | ((a, b), s) # rest \<Rightarrow> [([a, b], [s, s])])"

text \<open>
  An example gazetteer scorer: every pair of every block scores \<open>0.9\<close>; pairs under
  the threshold are dropped.
\<close>

definition constant_block_scores ::
  "('id, 'r) record_pair list list \<Rightarrow> 'o \<Rightarrow> 'o \<Rightarrow> nat \<Rightarrow> real \<Rightarrow> py_exn + 'id scored_pair list list" where
  "constant_block_scores bs dm clf cores threshold =
     Inr (map (\<lambda>block. filter (\<lambda>link. threshold \<le> snd link)
                         (map (\<lambda>(a, b). ((fst a, fst b), 9 / 10)) block)) bs)"

text \<open>
  A gazetteer with the example blocker and nothing indexed, the canonical record \<open>10\<close>
  and the messy record \<open>1\<close>, which share the name.
\<close>

definition fresh_gazetteer :: "(unit, nat, int, string record_dict) gazetteer" where
  "fresh_gazetteer =
     \<lparr> num_cores = 1, blocker = Some (), data_model = Some 0, classifier = Some 0,
       predicates = Some 0, indexed_records = None, committed_records = None,
       indexed_data = Map.empty \<rparr>"

definition canonical_pat :: "(int, string record_dict) data" where
  "canonical_pat = [(10, [(''name'', ''Pat'')])]"

definition messy_pat :: "(int, string record_dict) data" where
  "messy_pat = [(1, [(''name'', ''Pat'')])]"

definition pat_gazetteer :: "(unit, nat, int, string record_dict) gazetteer" where
  "pat_gazetteer = fst (index field_blocking integer_ids fresh_gazetteer canonical_pat)"

text \<open>The scored pairs of the spec's scenario 7.\<close>

definition scenario_scores :: "int scored_pair list" where
  "scenario_scores = [((1, 2), 9 / 10), ((1, 3), 8 / 10), ((2, 4), 7 / 10)]"


text \<open>
  An example pickle for objects that are lists of numbers: an object is written as its
  length followed by its items. Reading an empty file is \<open>EOFError\<close>, a length that
  the file cannot supply is \<open>UnpicklingError\<close>, and the byte \<open>255\<close> stands for a
  reference to a class the running version does not have (\<open>AttributeError\<close>).
\<close>

definition length_prefixed :: "nat list pickle" where
  "length_prefixed =
     \<lparr> dumps = (\<lambda>x. if length x < 255 then Inr (length x # x)
                       else Inl (OtherError ''PicklingError'')),
       load = (\<lambda>f. case f of
                       [] \<Rightarrow> Inl EOFError
                     | n # rest \<Rightarrow>
                         if n = 255 then Inl AttributeError
                         else if length rest < n then Inl UnpicklingError
                         else Inr (take n rest, drop n rest)) \<rparr>"

definition trained_matcher :: "(unit, nat list) matching" where
  "trained_matcher =
     \<lparr> num_cores = 2, blocker = Some (), data_model = Some [7],
       classifier = Some [8, 9], predicates = Some [6] \<rparr>"

text \<open>
  The canonical record \<open>10\<close> again, renamed, and the gazetteer after indexing it a
  second time.
\<close>

definition canonical_sam :: "(int, string record_dict) data" where
  "canonical_sam = [(10, [(''name'', ''Sam'')])]"

definition reindexed_gazetteer :: "(unit, nat, int, string record_dict) gazetteer" where
  "reindexed_gazetteer = fst (index field_blocking integer_ids pat_gazetteer canonical_sam)"




text \<open>Two records to remove: \<open>10\<close> is indexed, \<open>11\<close> is not.\<close>

definition known_and_unknown :: "(int, string record_dict) data" where
  "known_and_unknown = [(10, [(''name'', ''Pat'')]), (11, [(''name'', ''Sam'')])]"

section \<open>Pair generation: no duplicates, ascending ids\<close>

lemma yield_record_pairs_ids:
  "\<exists>n. pair_ids (yielded (yield_record_pairs data ps)) = take n ps"
proof (induction ps)
  case Nil
  show ?case by (simp add: pair_ids_def yielded_def)
next
  case (Cons p ps)
  obtain a b where p: "p = (a, b)" by (cases p)
  from Cons obtain n where n: "pair_ids (yielded (yield_record_pairs data ps)) = take n ps"
    by blast
  show ?case
  proof (cases "map_of data a")
    case None
    then have "pair_ids (yielded (yield_record_pairs data (p # ps))) = take 0 (p # ps)"
      by (simp add: p pair_ids_def yielded_def)
    then show ?thesis by blast
  next
    case (Some ra)
    show ?thesis
    proof (cases "map_of data b")
      case None
      with Some have "pair_ids (yielded (yield_record_pairs data (p # ps))) = take 0 (p # ps)"
        by (simp add: p pair_ids_def yielded_def)
      then show ?thesis by blast
    next
      case (Some rb)
      with \<open>map_of data a = Some ra\<close> n
      have "pair_ids (yielded (yield_record_pairs data (p # ps))) = take (Suc n) (p # ps)"
        by (auto simp: p pair_ids_def yielded_def split: prod.splits)
      then show ?thesis by blast
    qed
  qed
qed

lemma select_distinct_self_join_distinct: "distinct (select_distinct_self_join t)"
  by (simp add: select_distinct_self_join_def)

lemma select_distinct_self_join_less:
  "(a, b) \<in> set (select_distinct_self_join t) \<Longrightarrow> a < b"
  by (auto simp: select_distinct_self_join_def)

lemma ascending_pairs_unordered_distinct:
  fixes ps :: "('id::linorder \<times> 'id) list"
  assumes "distinct ps" and "\<And>a b. (a, b) \<in> set ps \<Longrightarrow> a < b"
  shows "distinct (map (\<lambda>(a, b). {a, b}) ps)"
proof -
  have "inj_on (\<lambda>(a, b). {a, b}) (set ps)"
  proof (rule inj_onI)
    fix p q assume p: "p \<in> set ps" and q: "q \<in> set ps"
      and eq: "(\<lambda>(a, b). {a, b}) p = (\<lambda>(a, b). {a, b}) q"
    obtain a b where pp: "p = (a, b)" by (cases p)
    obtain c d where qq: "q = (c, d)" by (cases q)
    from p pp assms(2) have "a < b" by blast
    moreover from q qq assms(2) have "c < d" by blast
    moreover from eq pp qq have "{a, b} = {c, d}" by simp
    ultimately have "a = c \<and> b = d"
      by (metis doubleton_eq_iff less_imp_not_less)
    then show "p = q" by (simp add: pp qq)
  qed
  with assms(1) show ?thesis by (simp add: distinct_map)
qed

text \<open>
  C1. For every dataset and every blocker, the record pairs that \<open>pairs\<close> yields carry
  each pair of ids at most once, the first id of every pair is less than the second, and
  no unordered pair \<open>{a, b}\<close> of ids occurs twice, however many block keys the two
  records share.
\<close>

theorem pairs_unordered_pair_at_most_once:
  fixes data :: "('id::linorder, 'r) data"
    and B :: "('b, 'id, 'r, 'v) blocking" and sqlite_id_type
    and m :: "('b, 'o, 'z) matching_scheme"
  defines "ids \<equiv> pair_ids (yielded (fst (pairs B sqlite_id_type m data)))"
  shows "distinct ids \<and> (\<forall>(a, b) \<in> set ids. a < b) \<and> distinct (map (\<lambda>(a, b). {a, b}) ids)"
proof -
  have "\<exists>t n. ids = take n (select_distinct_self_join t)"
  proof (cases "blocker m")
    case None
    then have "ids = take 0 (select_distinct_self_join [])"
      by (simp add: ids_def pairs_def yielded_def pair_ids_def)
    then show ?thesis by blast
  next
    case (Some b)
    show ?thesis
    proof (cases "sqlite_id_type data")
      case (Inl e)
      with Some have "ids = take 0 (select_distinct_self_join [])"
        by (simp add: ids_def pairs_def yielded_def pair_ids_def)
      then show ?thesis by blast
    next
      case (Inr id_type)
      with Some have "ids = pair_ids (yielded (yield_record_pairs data
          (select_distinct_self_join (call B (indexAll B b data) data False))))"
        by (simp add: ids_def pairs_def Let_def)
      then show ?thesis
        using yield_record_pairs_ids [of data] by metis
    qed
  qed
  then obtain t n where ids: "ids = take n (select_distinct_self_join t)" by blast
  have d: "distinct ids"
    by (simp add: ids select_distinct_self_join_distinct)
  have lt: "\<And>a b. (a, b) \<in> set ids \<Longrightarrow> a < b"
    using select_distinct_self_join_less [of _ _ t] by (auto simp: ids dest: in_set_takeD)
  from d lt have "distinct (map (\<lambda>(a, b). {a, b}) ids)"
    by (rule ascending_pairs_unordered_distinct)
  with d lt show ?thesis by blast
qed

theorem pairs_unordered_pair_at_most_once_witness:
  "pair_ids (yielded (fst (pairs field_blocking integer_ids dedupe_matcher people)))
     = [(1, 2), (1, 3), (2, 3)]
   \<and> distinct (map (\<lambda>(a, b). {a, b})
        (pair_ids (yielded (fst (pairs field_blocking integer_ids dedupe_matcher people)))))"
  using pairs_unordered_pair_at_most_once [of field_blocking integer_ids dedupe_matcher people]
  by (simp add: pairs_def field_blocking_def integer_ids_def people_def dedupe_matcher_def
      select_distinct_self_join_def pair_ids_def yielded_def)

section \<open>Partition: every record id in exactly one cluster\<close>

lemma foldl_difference_update:
  "foldl (\<lambda>s (record_ids, score). difference_update s record_ids) ks clusters
     = filter (\<lambda>k. k \<notin> \<Union> (set ` fst ` set clusters)) ks"
proof (induction clusters arbitrary: ks)
  case Nil
  show ?case by simp
next
  case (Cons c cs)
  obtain ids sc where c: "c = (ids, sc)" by (cases c)
  have "foldl (\<lambda>s (record_ids, score). difference_update s record_ids) ks (c # cs)
          = filter (\<lambda>k. k \<notin> \<Union> (set ` fst ` set cs)) (difference_update ks ids)"
    by (simp add: c Cons)
  also have "\<dots> = filter (\<lambda>k. k \<notin> \<Union> (set ` fst ` set (c # cs))) ks"
    by (auto simp: difference_update_def c intro: filter_cong)
  finally show ?case .
qed

lemma add_singletons_eq:
  "add_singletons data clusters =
     clusters @ map (\<lambda>k. ([k], [1]))
       (filter (\<lambda>k. k \<notin> \<Union> (set ` fst ` set clusters)) (remdups (map fst data)))"
  by (simp add: add_singletons_def foldl_difference_update)

lemma clusters_containing_absent:
  "k \<notin> \<Union> (set ` fst ` set cs) \<Longrightarrow> filter (\<lambda>c. k \<in> set (fst c)) cs = []"
  by (induction cs) auto

lemma clusters_containing_once:
  "distinct (concat (map fst cs)) \<Longrightarrow> k \<in> \<Union> (set ` fst ` set cs) \<Longrightarrow>
   length (filter (\<lambda>c. k \<in> set (fst c)) cs) = 1"
proof (induction cs)
  case Nil
  then show ?case by simp
next
  case (Cons c cs)
  show ?case
  proof (cases "k \<in> set (fst c)")
    case True
    with Cons.prems(1) have "k \<notin> \<Union> (set ` fst ` set cs)" by auto
    then have "filter (\<lambda>c. k \<in> set (fst c)) cs = []" by (rule clusters_containing_absent)
    with True show ?thesis by simp
  next
    case False
    with Cons show ?thesis by auto
  qed
qed

lemma singletons_containing:
  "distinct ks \<Longrightarrow>
   length (filter (\<lambda>c. k \<in> set (fst c)) (map (\<lambda>s. ([s], [1::real])) ks))
     = (if k \<in> set ks then 1 else 0)"
  by (induction ks) auto

lemma add_singletons_exactly_one:
  assumes "distinct (concat (map fst clusters))" and "k \<in> fst ` set data"
  shows "length (filter (\<lambda>c. k \<in> set (fst c)) (add_singletons data clusters)) = 1"
proof -
  let ?ks = "filter (\<lambda>k. k \<notin> \<Union> (set ` fst ` set clusters)) (remdups (map fst data))"
  have "distinct ?ks" by simp
  then have singles: "length (filter (\<lambda>c. k \<in> set (fst c)) (map (\<lambda>s. ([s], [1::real])) ?ks))
      = (if k \<in> set ?ks then 1 else 0)"
    by (rule singletons_containing)
  have split: "length (filter (\<lambda>c. k \<in> set (fst c)) (add_singletons data clusters))
      = length (filter (\<lambda>c. k \<in> set (fst c)) clusters) + (if k \<in> set ?ks then 1 else 0)"
    unfolding add_singletons_eq filter_append length_append singles ..
  show ?thesis
  proof (cases "k \<in> \<Union> (set ` fst ` set clusters)")
    case True
    then have "k \<notin> set ?ks" by simp
    with clusters_containing_once [OF assms(1) True] split show ?thesis by simp
  next
    case False
    with assms(2) have "k \<in> set ?ks" by simp
    with clusters_containing_absent [OF False] split show ?thesis by simp
  qed
qed

lemma add_singletons_singleton:
  assumes "k \<in> fst ` set data" and "k \<notin> \<Union> (set ` fst ` set clusters)"
  shows "([k], [1]) \<in> set (add_singletons data clusters)"
  using assms by (auto simp: add_singletons_eq)

lemma partition_data_Inr:
  assumes "partition_data B sqlite_id_type scoreDuplicates cluster m data threshold = Inr out"
  shows "\<exists>pair_scores. out = add_singletons data (cluster pair_scores threshold)"
  using assms
  by (auto simp: partition_data_def split: prod.splits option.splits sum.splits)

text \<open>
  C2. Whenever \<open>partition\<close> returns clusters, every record id of the input is in
  exactly one of them, and an id that is in no cluster of two or more records is there as
  the singleton cluster \<open>((id,), (1.0,))\<close>. The clustering function is a parameter;
  what is assumed of it is that its clusters share no id and have at least two members
  each.
\<close>

theorem partition_every_id_in_exactly_one_cluster:
  assumes "partition_data B sqlite_id_type scoreDuplicates cluster m data threshold = Inr out"
    and "\<forall>scores t. distinct (concat (map fst (cluster scores t)))"
    and "\<forall>scores t. \<forall>c \<in> set (cluster scores t). 2 \<le> length (fst c)"
    and "k \<in> fst ` set data"
  shows "length (filter (\<lambda>c. k \<in> set (fst c)) out) = 1
       \<and> ((\<nexists>c. c \<in> set out \<and> k \<in> set (fst c) \<and> 2 \<le> length (fst c))
            \<longrightarrow> ([k], [1]) \<in> set out)"
proof -
  from assms(1) obtain pair_scores
    where out: "out = add_singletons data (cluster pair_scores threshold)"
    using partition_data_Inr by blast
  let ?cs = "cluster pair_scores threshold"
  from assms(2) have d: "distinct (concat (map fst ?cs))" by blast
  have one: "length (filter (\<lambda>c. k \<in> set (fst c)) out) = 1"
    unfolding out using d assms(4) by (rule add_singletons_exactly_one)
  have single: "([k], [1]) \<in> set out"
    if none: "\<nexists>c. c \<in> set out \<and> k \<in> set (fst c) \<and> 2 \<le> length (fst c)"
  proof -
    have "k \<notin> \<Union> (set ` fst ` set ?cs)"
    proof
      assume "k \<in> \<Union> (set ` fst ` set ?cs)"
      then obtain c where c: "c \<in> set ?cs" "k \<in> set (fst c)" by auto
      with assms(3) have "2 \<le> length (fst c)" by blast
      moreover from c have "c \<in> set out" by (simp add: out add_singletons_eq)
      ultimately show False using none c(2) by blast
    qed
    with assms(4) show ?thesis unfolding out by (rule add_singletons_singleton)
  qed
  from one single show ?thesis by blast
qed

lemma first_pair_cluster_distinct:
  "distinct (concat (map fst (first_pair_cluster scores t)))"
proof (cases "filter (\<lambda>((a, b), s). a \<noteq> b \<and> t \<le> s) scores")
  case Nil
  then show ?thesis by (simp add: first_pair_cluster_def)
next
  case (Cons link rest)
  obtain a b s where link: "link = ((a, b), s)" by (cases link) auto
  have "link \<in> set (filter (\<lambda>((a, b), s). a \<noteq> b \<and> t \<le> s) scores)"
    by (simp add: Cons)
  then have "a \<noteq> b" by (simp add: link)
  then show ?thesis by (simp add: first_pair_cluster_def Cons link)
qed

lemma first_pair_cluster_multi:
  "c \<in> set (first_pair_cluster scores t) \<Longrightarrow> 2 \<le> length (fst c)"
  by (auto simp: first_pair_cluster_def split: list.splits)

lemma partition_people: "partition_data field_blocking integer_ids constant_scores first_pair_cluster
         dedupe_matcher people (1 / 2) = Inr [([1, 2], [9 / 10, 9 / 10]), ([3], [1])]"
  by (simp add: partition_data_def pairs_def field_blocking_def integer_ids_def people_def
      dedupe_matcher_def select_distinct_self_join_def yielded_def raised_def score_def
      constant_scores_def first_pair_cluster_def add_singletons_def difference_update_def)

theorem partition_every_id_in_exactly_one_cluster_witness:
  "partition_data field_blocking integer_ids constant_scores first_pair_cluster
         dedupe_matcher people (1 / 2) = Inr [([1, 2], [9 / 10, 9 / 10]), ([3], [1])]
   \<and> length (filter (\<lambda>c. 3 \<in> set (fst c)) [([1, 2], [9 / 10, 9 / 10 :: real]), ([3::int], [1])]) = 1
   \<and> ([3], [1]) \<in> set [([1, 2], [9 / 10, 9 / 10 :: real]), ([3::int], [1])]"
proof -
  have c1: "\<forall>scores t. distinct (concat (map fst (first_pair_cluster scores t :: int cluster list)))"
    by (simp add: first_pair_cluster_distinct)
  have c2: "\<forall>scores t. \<forall>c \<in> set (first_pair_cluster scores t :: int cluster list). 2 \<le> length (fst c)"
    by (simp add: first_pair_cluster_multi)
  have k: "(3::int) \<in> fst ` set people" by (simp add: people_def)
  from partition_every_id_in_exactly_one_cluster [OF partition_people c1 c2 k] partition_people
  show ?thesis by simp
qed

section \<open>Gazetteer search: the result stream\<close>

lemma format_search_results_eq:
  "format_search_results search_d results =
     map prepare_result results @ map (\<lambda>k. (Some k, [])) (remdups (map fst search_d))"
  by (simp add: format_search_results_def)

lemma format_search_results_empty_entry:
  "k \<in> fst ` set search_d \<Longrightarrow> (Some k, []) \<in> set (format_search_results search_d results)"
  by (auto simp: format_search_results_eq)

lemma format_search_results_match_entry:
  "result \<in> set results \<Longrightarrow> prepare_result result \<in> set (format_search_results search_d results)"
  by (simp add: format_search_results_eq)

lemma call_canonical_pat:
  "call field_blocking () canonical_pat True = [(''name:Pat'', 10)]"
  by (simp add: field_blocking_def canonical_pat_def)

lemma dict_update_canonical_pat: "dict_update Map.empty canonical_pat = [10 \<mapsto> [(''name'', ''Pat'')]]"
    by (simp add: dict_update_def canonical_pat_def)

lemma index_canonical_pat:
  "index field_blocking integer_ids fresh_gazetteer canonical_pat =
     (fresh_gazetteer\<lparr>indexed_records := Some [(''name:Pat'', 10)],
                       committed_records := Some [(''name:Pat'', 10)],
                       indexed_data := [10 \<mapsto> [(''name'', ''Pat'')]]\<rparr>, None)"
proof -
  have b: "blocker fresh_gazetteer = Some ()" and t: "indexed_records fresh_gazetteer = None"
    and d: "indexed_data fresh_gazetteer = Map.empty"
    by (simp_all add: fresh_gazetteer_def)
  have t': "indexed_records (fresh_gazetteer\<lparr>blocker := Some ()\<rparr>) = None"
    and d': "indexed_data (fresh_gazetteer\<lparr>blocker := Some ()\<rparr>) = Map.empty"
    by (simp_all add: t d)
  have g: "fresh_gazetteer\<lparr>blocker := Some ()\<rparr> = fresh_gazetteer"
    using b by simp
  have r: "fold (\<lambda>row t. replace_into t row) [(''name:Pat'', 10::int)] [] = [(''name:Pat'', 10)]"
    by (simp add: replace_into_def)
  have i: "indexAll field_blocking () canonical_pat = ()" by simp
  show ?thesis
    by (simp only: index_def b option.case i Let_def integer_ids_def sum.case t' d' t d
      call_canonical_pat dict_update_canonical_pat r g list.case)
qed

lemma pat_gazetteer_fields:
  "blocker pat_gazetteer = Some ()"
  "data_model pat_gazetteer = Some 0"
  "classifier pat_gazetteer = Some 0"
  "num_cores pat_gazetteer = 1"
  "indexed_records pat_gazetteer = Some [(''name:Pat'', 10)]"
  "indexed_data pat_gazetteer = [10 \<mapsto> [(''name'', ''Pat'')]]"
  unfolding pat_gazetteer_def index_canonical_pat fst_conv
  by (simp_all add: fresh_gazetteer_def)

lemma blocks_messy_pat:
  "blocks field_blocking integer_ids pat_gazetteer messy_pat
     = ([[((1, [(''name'', ''Pat'')]), (10, [(''name'', ''Pat'')]))]], None)"
proof -
  have c: "call field_blocking () messy_pat False = [(''name:Pat'', 1)]"
    by (simp add: field_blocking_def messy_pat_def)
  have j: "select_distinct_join [(''name:Pat'', 1::int)] [(''name:Pat'', 10)] = [(1, 10)]"
    by (simp add: select_distinct_join_def)
  have y: "yield_blocks messy_pat [10 \<mapsto> [(''name'', ''Pat'')]] [(1, [(1, 10)])]
        = ([[((1, [(''name'', ''Pat'')]), (10, [(''name'', ''Pat'')]))]], None)"
    by (simp add: messy_pat_def)
  show ?thesis
    by (simp only: blocks_def pat_gazetteer_fields option.case integer_ids_def sum.case
        Let_def c j groupby.simps list.case fst_conv y)
qed

lemma gazetteMatching_one:
  "gazetteMatching [[((1::int, 10::int), 9 / 10)]] (Some 1) = [[((1, 10), 9 / 10)]]"
  by (simp add: gazetteMatching_def truncate_matches_def sort_descending_def)

text \<open>
  C3. \<open>search\<close> on one query record that has one candidate: the result stream holds
  the query id twice, once with its match and once more with an empty tuple, because
  \<open>_format_search_results\<close> never records the ids it has emitted.
\<close>

theorem search_repeats_query_id:
  "search field_blocking integer_ids constant_block_scores gazetteMatching
     pat_gazetteer messy_pat (1 / 2) (Some 1)
   = Inr [(Some 1, [(10, 9 / 10)]), (Some 1, [])]"
proof -
  have s: "score_blocks constant_block_scores pat_gazetteer
          [[((1::int, [(''name'', ''Pat'')]), (10::int, [(''name'', ''Pat'')]))]] (1 / 2)
        = Inr [[((1, 10), 9 / 10)]]"
    by (simp add: score_blocks_def constant_block_scores_def pat_gazetteer_fields)
  have f: "format_search_results messy_pat [[((1::int, 10::int), 9 / 10)]]
        = [(Some 1, [(10, 9 / 10)]), (Some 1, [])]"
    by (simp add: format_search_results_def prepare_result_def messy_pat_def)
  show ?thesis
    by (simp only: search_def blocks_messy_pat prod.case option.case s sum.case
        gazetteMatching_one f)
qed

section \<open>One-to-one linkage: the greedy scan is injective\<close>

lemma greedy_scan_unmatched:
  "link \<in> set (greedy_scan matched xs) \<Longrightarrow> endpoints link \<inter> matched = {}"
proof (induction matched xs rule: greedy_scan.induct)
  case (1 matched)
  then show ?case by simp
next
  case (2 matched a b s rest)
  then show ?case
    by (auto simp: endpoints_def split: if_splits)
qed

lemma greedy_scan_subset: "set (greedy_scan matched xs) \<subseteq> set xs"
  by (induction matched xs rule: greedy_scan.induct) auto

lemma greedy_scan_distinct_endpoints:
  "distinct (map (\<lambda>link. fst (fst link)) (greedy_scan matched xs))
   \<and> distinct (map (\<lambda>link. snd (fst link)) (greedy_scan matched xs))"
proof (induction matched xs rule: greedy_scan.induct)
  case (1 matched)
  show ?case by simp
next
  case (2 matched a b s rest)
  show ?case
  proof (cases "a \<notin> matched \<and> b \<notin> matched")
    case True
    have "endpoints link \<inter> insert a (insert b matched) = {}"
      if "link \<in> set (greedy_scan (insert a (insert b matched)) rest)" for link
      using that by (rule greedy_scan_unmatched)
    then have "a \<notin> (\<lambda>link. fst (fst link)) ` set (greedy_scan (insert a (insert b matched)) rest)"
      and "b \<notin> (\<lambda>link. snd (fst link)) ` set (greedy_scan (insert a (insert b matched)) rest)"
      by (auto simp: endpoints_def)
    with True 2 show ?thesis by simp
  next
    case False
    with 2 show ?thesis by auto
  qed
qed

lemma greedy_scan_descending:
  "sorted_wrt (\<lambda>x y. snd y \<le> snd x) xs \<Longrightarrow>
   sorted_wrt (\<lambda>x y. snd y \<le> snd x) (greedy_scan matched xs)"
proof (induction matched xs rule: greedy_scan.induct)
  case (1 matched)
  show ?case by simp
next
  case (2 matched a b s rest)
  then show ?case
    using greedy_scan_subset [of "insert a (insert b matched)" rest] by auto
qed

lemma greedy_scan_maximal:
  assumes "sorted_wrt (\<lambda>x y. snd y \<le> snd x) xs" and "x \<in> set xs"
    and "x \<notin> set (greedy_scan matched xs)"
  shows "endpoints x \<inter> matched \<noteq> {}
       \<or> (\<exists>l \<in> set (greedy_scan matched xs). snd x \<le> snd l \<and> endpoints x \<inter> endpoints l \<noteq> {})"
  using assms
proof (induction matched xs rule: greedy_scan.induct)
  case (1 matched)
  then show ?case by simp
next
  case (2 matched a b s rest)
  let ?y = "((a, b), s)"
  from "2.prems"(1) have sorted_rest: "sorted_wrt (\<lambda>x y. snd y \<le> snd x) rest"
    and le: "\<And>z. z \<in> set rest \<Longrightarrow> snd z \<le> s" by auto
  show ?case
  proof (cases "a \<notin> matched \<and> b \<notin> matched")
    case True
    let ?M = "insert a (insert b matched)"
    from True have out: "greedy_scan matched (?y # rest) = ?y # greedy_scan ?M rest" by simp
    from "2.prems"(3) out have ne: "x \<noteq> ?y" and nin: "x \<notin> set (greedy_scan ?M rest)" by auto
    with "2.prems"(2) have xin: "x \<in> set rest" by simp
    from "2.IH"(1) [OF True sorted_rest xin nin]
    consider (m) "endpoints x \<inter> ?M \<noteq> {}"
      | (l) l where "l \<in> set (greedy_scan ?M rest)" "snd x \<le> snd l" "endpoints x \<inter> endpoints l \<noteq> {}"
      by blast
    then show ?thesis
    proof cases
      case m
      then have "endpoints x \<inter> matched \<noteq> {} \<or> endpoints x \<inter> endpoints ?y \<noteq> {}"
        by (auto simp: endpoints_def)
      moreover have "snd x \<le> snd ?y" using le [OF xin] by simp
      ultimately show ?thesis unfolding out by auto
    next
      case l
      then show ?thesis unfolding out by auto
    qed
  next
    case False
    then have out: "greedy_scan matched (?y # rest) = greedy_scan matched rest" by auto
    show ?thesis
    proof (cases "x = ?y")
      case True
      with False show ?thesis by (auto simp: endpoints_def)
    next
      case False
      with "2.prems"(2) have xin: "x \<in> set rest" by simp
      from "2.prems"(3) out have nin: "x \<notin> set (greedy_scan matched rest)" by simp
      from "2.IH"(2) [OF \<open>\<not> (a \<notin> matched \<and> b \<notin> matched)\<close> sorted_rest xin nin]
      show ?thesis unfolding out .
    qed
  qed
qed

lemma sort_descending_sorted: "sorted_wrt (\<lambda>x y. snd y \<le> snd x) (sort_descending scores)"
proof -
  have "sorted (map (\<lambda>link. - snd link) (sort_descending scores))"
    by (simp add: sort_descending_def)
  then show ?thesis
    by (simp add: sorted_map sorted_wrt_iff_nth_less sorted_iff_nth_mono_less)
qed

lemma set_sort_descending: "set (sort_descending scores) = set scores"
  by (simp add: sort_descending_def)

text \<open>
  C4. The links of \<open>one_to_one\<close> have pairwise different first ids and pairwise
  different second ids. They are the greedy scan of the pairs in descending order of the
  score: links of the input, emitted by descending score, and every pair that was not
  accepted shares an endpoint with an accepted link of at least its score.
\<close>

theorem one_to_one_injective_greedy:
  "distinct (map (\<lambda>link. fst (fst link)) (one_to_one scores))
   \<and> distinct (map (\<lambda>link. snd (fst link)) (one_to_one scores))
   \<and> set (one_to_one scores) \<subseteq> set scores
   \<and> sorted_wrt (\<lambda>x y. snd y \<le> snd x) (one_to_one scores)
   \<and> (\<forall>x \<in> set scores. x \<notin> set (one_to_one scores) \<longrightarrow>
         (\<exists>l \<in> set (one_to_one scores). snd x \<le> snd l \<and> endpoints x \<inter> endpoints l \<noteq> {}))"
proof -
  let ?xs = "sort_descending scores"
  have out: "one_to_one scores = greedy_scan {} ?xs"
    by (simp add: one_to_one_def greedyMatching_def)
  have "\<exists>l \<in> set (greedy_scan {} ?xs). snd x \<le> snd l \<and> endpoints x \<inter> endpoints l \<noteq> {}"
    if "x \<in> set scores" "x \<notin> set (greedy_scan {} ?xs)" for x
    using greedy_scan_maximal [OF sort_descending_sorted, of x scores "{}"] that
    by (simp add: set_sort_descending)
  moreover have "set (greedy_scan {} ?xs) \<subseteq> set scores"
    using greedy_scan_subset [of "{}" ?xs] by (simp add: set_sort_descending)
  ultimately show ?thesis
    unfolding out
    using greedy_scan_distinct_endpoints [of "{}" ?xs]
      greedy_scan_descending [OF sort_descending_sorted, of "{}" scores]
    by blast
qed

lemma one_to_one_scenario:
  "one_to_one scenario_scores = [((1, 2), 9 / 10)]"
  by (simp add: one_to_one_def greedyMatching_def sort_descending_def scenario_scores_def)

theorem one_to_one_injective_greedy_witness:
  "one_to_one scenario_scores = [((1, 2), 9 / 10)]
   \<and> distinct (map (\<lambda>link. fst (fst link)) (one_to_one scenario_scores))
   \<and> endpoints ((2::int, 4::int), 7 / 10) \<inter> endpoints ((1, 2), 9 / 10) \<noteq> {}"
  using one_to_one_injective_greedy [of scenario_scores]
  by (simp add: one_to_one_scenario endpoints_def)

section \<open>Many-to-one linkage: top-1 per query group and the greedy scan\<close>






lemma filter_groups:
  "distinct qs \<Longrightarrow>
   filter (\<lambda>x. f x = k) (concat (map (\<lambda>q. filter (\<lambda>x. f x = q) xs) qs))
     = (if k \<in> set qs then filter (\<lambda>x. f x = k) xs else [])"
proof (induction qs)
  case Nil
  show ?case by simp
next
  case (Cons q qs)
  have inner: "filter (\<lambda>x. f x = k) (filter (\<lambda>x. f x = q) xs)
      = (if k = q then filter (\<lambda>x. f x = k) xs else [])"
    by (induction xs) auto
  from Cons show ?case by (auto simp: inner simp del: filter_filter)
qed








section \<open>Settings: write, then load\<close>

lemma dump_Some:
  "dumps P x = Inr written \<Longrightarrow> dump P (Some x) file_obj = (file_obj @ written, None)"
  by (simp add: dump_def)

lemma write_settings_trained:
  assumes "data_model m = Some dm" and "classifier m = Some clf" and "predicates m = Some preds"
    and "dumps P dm = Inr b1" and "dumps P clf = Inr b2" and "dumps P preds = Inr b3"
  shows "write_settings P m file_obj = (file_obj @ b1 @ b2 @ b3, None)"
  by (simp add: write_settings_def assms dump_Some)

lemma load_settings_written:
  assumes "\<And>rest. load P (b1 @ rest) = Inr (dm, rest)"
    and "\<And>rest. load P (b2 @ rest) = Inr (clf, rest)"
    and "\<And>rest. load P (b3 @ rest) = Inr (preds, rest)"
  shows "load_settings P (b1 @ b2 @ b3) = Inr (dm, clf, preds)"
proof -
  have 1: "load P (b1 @ b2 @ b3) = Inr (dm, b2 @ b3)" by (rule assms(1))
  have 2: "load P (b2 @ b3) = Inr (clf, b3)" by (rule assms(2))
  have 3: "load P b3 = Inr (preds, [])" using assms(3) [of "[]"] by simp
  show ?thesis by (simp add: load_settings_def 1 2 3)
qed

text \<open>
  C6. For a trained matcher whose data model, classifier and predicates pickle and
  unpickle to themselves, \<open>write_settings\<close> writes the three objects in the order data
  model, classifier, predicates, and \<open>StaticMatching.__init__\<close> on that file reads them
  back in the same order: the fresh matcher has the same data model, classifier and
  predicates, a blocker built from the predicates, and (built with the same number of
  cores) it scores every pair list as the writer does.
\<close>

theorem write_settings_StaticMatching_roundtrip:
  fixes m :: "('b, 'o, 'z) matching_scheme" and P :: "'o pickle" and Blocker :: "'o \<Rightarrow> 'c"
  assumes "data_model m = Some dm" and "classifier m = Some clf" and "predicates m = Some preds"
    and "\<forall>x \<in> {dm, clf, preds}. \<exists>written. dumps P x = Inr written
            \<and> (\<forall>rest. load P (written @ rest) = Inr (x, rest))"
  shows "\<exists>b1 b2 b3 m'.
           dumps P dm = Inr b1 \<and> dumps P clf = Inr b2 \<and> dumps P preds = Inr b3
         \<and> write_settings P m [] = (b1 @ b2 @ b3, None)
         \<and> StaticMatching_init P Blocker cpu_count (b1 @ b2 @ b3) (Some (num_cores m)) = Inr m'
         \<and> data_model m' = Some dm \<and> classifier m' = Some clf \<and> predicates m' = Some preds
         \<and> blocker m' = Some (Blocker preds)
         \<and> (\<forall>(scoreDuplicates :: ('id, 'r) record_pair list \<Rightarrow> 'o \<Rightarrow> 'o \<Rightarrow> nat \<Rightarrow> real
                                 \<Rightarrow> py_exn + 'id scored_pair list) ps threshold.
               score scoreDuplicates m' ps threshold = score scoreDuplicates m ps threshold)"
proof -
  from assms(4) obtain b1 where b1: "dumps P dm = Inr b1"
    "\<And>rest. load P (b1 @ rest) = Inr (dm, rest)" by auto
  from assms(4) obtain b2 where b2: "dumps P clf = Inr b2"
    "\<And>rest. load P (b2 @ rest) = Inr (clf, rest)" by auto
  from assms(4) obtain b3 where b3: "dumps P preds = Inr b3"
    "\<And>rest. load P (b3 @ rest) = Inr (preds, rest)" by auto
  let ?m' = "(Matching_init cpu_count (Some (num_cores m)) :: ('c, 'o) matching)
      \<lparr>data_model := Some dm, classifier := Some clf,
       predicates := Some preds, blocker := Some (Blocker preds)\<rparr>"
  have w: "write_settings P m [] = (b1 @ b2 @ b3, None)"
    using write_settings_trained [OF assms(1-3) b1(1) b2(1) b3(1), of "[]"] by simp
  have l: "load_settings P (b1 @ b2 @ b3) = Inr (dm, clf, preds)"
    using b1(2) b2(2) b3(2) by (rule load_settings_written)
  have i: "StaticMatching_init P Blocker cpu_count (b1 @ b2 @ b3) (Some (num_cores m)) = Inr ?m'"
    by (simp add: StaticMatching_init_def l)
  have s: "score scoreDuplicates ?m' ps threshold = score scoreDuplicates m ps threshold"
    for scoreDuplicates :: "('id, 'r) record_pair list \<Rightarrow> 'o \<Rightarrow> 'o \<Rightarrow> nat \<Rightarrow> real \<Rightarrow> py_exn + 'id scored_pair list"
      and ps threshold
    by (simp add: score_def assms(1,2) Matching_init_def)
  show ?thesis
    using b1(1) b2(1) b3(1) w i s by (intro exI [of _ b1] exI [of _ b2] exI [of _ b3] exI [of _ ?m']) simp
qed

lemma length_prefixed_dumps:
  "length x < 255 \<Longrightarrow> dumps length_prefixed x = Inr (length x # x)"
  by (simp add: length_prefixed_def)

lemma length_prefixed_load:
  "length x < 255 \<Longrightarrow> load length_prefixed ((length x # x) @ rest) = Inr (x, rest)"
  by (simp add: length_prefixed_def)

lemma length_prefixed_picklable:
  "length x < 255 \<Longrightarrow>
   \<exists>written. dumps length_prefixed x = Inr written
     \<and> (\<forall>rest. load length_prefixed (written @ rest) = Inr (x, rest))"
  using length_prefixed_dumps length_prefixed_load by blast

theorem write_settings_StaticMatching_roundtrip_witness:
  "write_settings length_prefixed trained_matcher [] = ([1, 7, 2, 8, 9, 1, 6], None)
   \<and> (\<exists>m'. StaticMatching_init length_prefixed (\<lambda>preds. ()) 4 [1, 7, 2, 8, 9, 1, 6] (Some 2)
               = Inr m'
           \<and> data_model m' = Some [7] \<and> classifier m' = Some [8, 9]
           \<and> predicates m' = Some [6])"
proof -
  have t: "data_model trained_matcher = Some [7]" "classifier trained_matcher = Some [8, 9]"
    "predicates trained_matcher = Some [6]" "num_cores trained_matcher = 2"
    by (simp_all add: trained_matcher_def)
  have p: "\<forall>x \<in> {[7], [8, 9], [6::nat]}. \<exists>written. dumps length_prefixed x = Inr written
            \<and> (\<forall>rest. load length_prefixed (written @ rest) = Inr (x, rest))"
    by (simp add: length_prefixed_picklable)
  from write_settings_StaticMatching_roundtrip
    [OF t(1-3) p, of "\<lambda>preds. ()" 4, where ?'id = int and ?'r = unit]
  obtain b1 b2 b3 m' where r:
    "dumps length_prefixed [7] = Inr b1" "dumps length_prefixed [8, 9] = Inr b2"
    "dumps length_prefixed [6] = Inr b3"
    "write_settings length_prefixed trained_matcher [] = (b1 @ b2 @ b3, None)"
    "StaticMatching_init length_prefixed (\<lambda>preds. ()) 4 (b1 @ b2 @ b3)
       (Some (num_cores trained_matcher)) = Inr m'"
    "data_model m' = Some [7]" "classifier m' = Some [8, 9]" "predicates m' = Some [6]"
    by blast
  from r(1-3) have b: "b1 = [1, 7]" "b2 = [2, 8, 9]" "b3 = [1, 6]"
    by (auto simp: length_prefixed_dumps numeral_2_eq_2)
  from r(4-8) show ?thesis by (auto simp: b t(4))
qed

lemma load_settings_Inl_iff:
  "load_settings P f = Inl e \<longleftrightarrow>
     load P f = Inl e
     \<or> (\<exists>dm f1. load P f = Inr (dm, f1)
          \<and> (load P f1 = Inl e
              \<or> (\<exists>clf f2. load P f1 = Inr (clf, f2) \<and> load P f2 = Inl e)))"
  by (auto simp: load_settings_def split: sum.splits prod.splits)

lemma messages_differ: "incompatible_message \<noteq> loading_message"
  by (simp add: incompatible_message_def loading_message_def)

text \<open>
  C7. When loading the settings fails, whichever of the three loads raises and whatever
  it raises, \<open>StaticMatching.__init__\<close> raises \<open>SettingsFileLoadingException\<close>: with
  the message about an incompatible version when the load raised \<open>KeyError\<close> or
  \<open>AttributeError\<close>, with the other message for any other exception; the two messages
  differ.
\<close>

theorem StaticMatching_init_load_failure:
  assumes "load_settings P settings_file = Inl e"
  shows "StaticMatching_init P Blocker cpu_count settings_file n =
           Inl (SettingsFileLoadingException
                  (if e = KeyError \<or> e = AttributeError then incompatible_message
                   else loading_message))
         \<and> incompatible_message \<noteq> loading_message"
  using assms by (simp add: StaticMatching_init_def messages_differ)

lemma StaticMatching_init_raises_only_settings_exception:
  "(\<exists>m. StaticMatching_init P Blocker cpu_count settings_file n = Inr m)
   \<or> (\<exists>msg. StaticMatching_init P Blocker cpu_count settings_file n
              = Inl (SettingsFileLoadingException msg))"
  by (auto simp: StaticMatching_init_def split: sum.splits)

lemma load_settings_truncated: "load_settings length_prefixed [1, 7, 2, 8] = Inl UnpicklingError"
  by (simp add: load_settings_def length_prefixed_def)

lemma load_settings_other_version:
  "load_settings length_prefixed [1, 7, 255, 8] = Inl AttributeError"
  by (simp add: load_settings_def length_prefixed_def)

theorem StaticMatching_init_load_failure_witness:
  "StaticMatching_init length_prefixed (\<lambda>preds. ()) 4 [1, 7, 2, 8] None
     = Inl (SettingsFileLoadingException loading_message)
   \<and> StaticMatching_init length_prefixed (\<lambda>preds. ()) 4 [1, 7, 255, 8] None
     = Inl (SettingsFileLoadingException incompatible_message)"
  using StaticMatching_init_load_failure [OF load_settings_truncated, of "\<lambda>preds. ()" 4 None]
    StaticMatching_init_load_failure [OF load_settings_other_version, of "\<lambda>preds. ()" 4 None]
  by simp

section \<open>Indexing a record id again\<close>

lemma set_fold_replace_into:
  "set (fold (\<lambda>row t. replace_into t row) rows table) = set table \<union> set rows"
  by (induction rows arbitrary: table) (auto simp: replace_into_def)

lemma index_keeps_prior_postings:
  assumes "index B sqlite_id_type g data = (g', None)" and "indexed_records g = Some table"
  shows "\<exists>table'. indexed_records g' = Some table' \<and> set table \<subseteq> set table'"
  using assms
  by (auto simp: index_def Let_def set_fold_replace_into split: option.splits sum.splits)

lemma index_canonical_sam:
  "index field_blocking integer_ids pat_gazetteer canonical_sam =
     (pat_gazetteer\<lparr>indexed_records := Some [(''name:Pat'', 10), (''name:Sam'', 10)],
                     committed_records := Some [(''name:Pat'', 10), (''name:Sam'', 10)],
                     indexed_data := [10 \<mapsto> [(''name'', ''Sam'')]]\<rparr>, None)"
proof -
  have c: "call field_blocking () canonical_sam True = [(''name:Sam'', 10)]"
    by (simp add: field_blocking_def canonical_sam_def)
  have i: "indexAll field_blocking () canonical_sam = ()" by simp
  have g: "pat_gazetteer\<lparr>blocker := Some ()\<rparr> = pat_gazetteer"
    using pat_gazetteer_fields(1) by simp
  have r: "fold (\<lambda>row t. replace_into t row) [(''name:Sam'', 10::int)] [(''name:Pat'', 10)]
        = [(''name:Pat'', 10), (''name:Sam'', 10)]"
    by (simp add: replace_into_def)
  have u: "dict_update [10 \<mapsto> [(''name'', ''Pat'')]] canonical_sam = [10 \<mapsto> [(''name'', ''Sam'')]]"
    by (simp add: dict_update_def canonical_sam_def)
  show ?thesis
    by (simp only: index_def pat_gazetteer_fields option.case i Let_def g integer_ids_def
        sum.case c r u)
qed

lemma reindexed_gazetteer_fields:
  "blocker reindexed_gazetteer = Some ()"
  "indexed_records reindexed_gazetteer = Some [(''name:Pat'', 10), (''name:Sam'', 10)]"
  "indexed_data reindexed_gazetteer = [10 \<mapsto> [(''name'', ''Sam'')]]"
  unfolding reindexed_gazetteer_def index_canonical_sam fst_conv
  by (simp_all add: pat_gazetteer_fields)

text \<open>
  C8. The record id \<open>10\<close> is indexed as Pat and then indexed again as Sam. The table
  still holds the posting of the old block key beside the new one, and a query record
  named Pat is still paired with record \<open>10\<close>, whose indexed fields now say Sam.
\<close>

theorem index_again_keeps_old_postings:
  "indexed_records reindexed_gazetteer = Some [(''name:Pat'', 10), (''name:Sam'', 10)]
   \<and> blocks field_blocking integer_ids reindexed_gazetteer messy_pat
       = ([[((1, [(''name'', ''Pat'')]), (10, [(''name'', ''Sam'')]))]], None)"
proof -
  have c: "call field_blocking () messy_pat False = [(''name:Pat'', 1)]"
    by (simp add: field_blocking_def messy_pat_def)
  have j: "select_distinct_join [(''name:Pat'', 1::int)] [(''name:Pat'', 10), (''name:Sam'', 10)]
        = [(1, 10)]"
    by (simp add: select_distinct_join_def)
  have y: "yield_blocks messy_pat [10 \<mapsto> [(''name'', ''Sam'')]] [(1, [(1, 10)])]
        = ([[((1, [(''name'', ''Pat'')]), (10, [(''name'', ''Sam'')]))]], None)"
    by (simp add: messy_pat_def)
  have "blocks field_blocking integer_ids reindexed_gazetteer messy_pat
       = ([[((1, [(''name'', ''Pat'')]), (10, [(''name'', ''Sam'')]))]], None)"
    by (simp only: blocks_def reindexed_gazetteer_fields option.case integer_ids_def sum.case
        Let_def c j groupby.simps list.case fst_conv y)
  then show ?thesis by (simp add: reindexed_gazetteer_fields)
qed

section \<open>Uncertain pairs need an active learner\<close>





section \<open>Removing a record id that is not indexed\<close>

lemma field_values_total:
  "\<forall>record \<in> set records. map_of record field \<noteq> None \<Longrightarrow>
   \<exists>vs. field_values field records = Inr vs"
  by (induction records) auto

lemma unindex_fields_succeeds:
  "\<forall>field \<in> set fs. \<forall>record \<in> set records. map_of record field \<noteq> None \<Longrightarrow>
   snd (unindex_fields B b fs records) = None"
proof (induction fs arbitrary: b)
  case Nil
  show ?case by simp
next
  case (Cons field fs)
  then obtain vs where "field_values field records = Inr vs"
    using field_values_total [of records field] by auto
  with Cons show ?case by simp
qed

lemma del_keys_missing:
  "\<exists>k \<in> set ks. d k = None \<Longrightarrow> snd (del_keys d ks) = Some KeyError"
proof (induction ks arbitrary: d)
  case Nil
  then show ?case by simp
next
  case (Cons k ks)
  show ?case
  proof (cases "d k")
    case None
    then show ?thesis by simp
  next
    case (Some r)
    with Cons.prems have "\<exists>k' \<in> set ks. (d(k := None)) k' = None" by auto
    then have "snd (del_keys (d(k := None)) ks) = Some KeyError" by (rule Cons.IH)
    moreover from Some have "del_keys d (k # ks) = del_keys (d(k := None)) ks" by simp
    ultimately show ?thesis by (simp only:)
  qed
qed

lemma del_keys_prefix:
  "distinct ks \<Longrightarrow>
   fst (del_keys d ks) = (\<lambda>k. if k \<in> set (takeWhile (\<lambda>k. d k \<noteq> None) ks) then None else d k)"
proof (induction ks arbitrary: d)
  case Nil
  show ?case by simp
next
  case (Cons k ks)
  show ?case
  proof (cases "d k")
    case None
    then show ?thesis by simp
  next
    case (Some r)
    from Cons.prems have k: "k \<notin> set ks" and dist: "distinct ks" by simp_all
    have tw: "takeWhile (\<lambda>k'. (d(k := None)) k' \<noteq> None) ks = takeWhile (\<lambda>k'. d k' \<noteq> None) ks"
      using k by (intro takeWhile_cong) auto
    from Some have step: "del_keys d (k # ks) = del_keys (d(k := None)) ks" by simp
    have "fst (del_keys (d(k := None)) ks)
        = (\<lambda>k'. if k' \<in> set (takeWhile (\<lambda>k'. d k' \<noteq> None) ks) then None
                 else (d(k := None)) k')"
      using Cons.IH [OF dist, of "d(k := None)"] unfolding tw .
    also have "\<dots> = (\<lambda>k'. if k' \<in> set (takeWhile (\<lambda>k'. d k' \<noteq> None) (k # ks)) then None
                        else d k')"
      using Some by (auto simp: fun_eq_iff)
    finally show ?thesis unfolding step .
  qed
qed

lemma set_delete_record_ids:
  "set (delete_record_ids table ks) = {row \<in> set table. snd row \<notin> set ks}"
  by (auto simp: delete_record_ids_def)

lemma unindex_deleted:
  assumes "blocker g = Some b"
    and "unindex_fields B b (index_fields B b) (map snd data) = (b1, None)"
    and "indexed_records g = Some table"
  shows "unindex B g data =
     (g\<lparr>blocker := Some b1,
        indexed_records := Some (delete_record_ids table (map fst data)),
        committed_records := Some (delete_record_ids table (map fst data)),
        indexed_data := fst (del_keys (indexed_data g) (map fst data))\<rparr>,
      snd (del_keys (indexed_data g) (map fst data)))"
  by (simp add: unindex_def assms Let_def split: prod.splits)

lemma unindex_without_blocker:
  "blocker g = None \<Longrightarrow> unindex B g data = (g, Some (AssertionError []))"
  by (simp add: unindex_def)

lemma field_values_error: "field_values field records = Inl e \<Longrightarrow> e = KeyError"
  by (induction records) (auto split: option.splits sum.splits)

lemma unindex_fields_error:
  "snd (unindex_fields B b fs records) = Some e \<Longrightarrow> e = KeyError"
  by (induction fs arbitrary: b) (auto split: sum.splits dest: field_values_error)

lemma unindex_missing_field:
  assumes "blocker g = Some b"
    and "unindex_fields B b (index_fields B b) (map snd data) = (b1, Some e)"
  shows "unindex B g data = (g\<lparr>blocker := Some b1\<rparr>, Some KeyError)"
proof -
  from assms(2) have "snd (unindex_fields B b (index_fields B b) (map snd data)) = Some e"
    by simp
  then have "e = KeyError" by (rule unindex_fields_error)
  with assms show ?thesis by (simp add: unindex_def)
qed

lemma unindex_without_table:
  assumes "blocker g = Some b"
    and "unindex_fields B b (index_fields B b) (map snd data) = (b1, None)"
    and "indexed_records g = None"
  shows "unindex B g data =
     (g\<lparr>blocker := Some b1\<rparr>, Some (OperationalError ''no such table: indexed_records''))"
  by (simp add: unindex_def assms)

text \<open>
  C10, as amended. When the matcher has a blocker, every given record has every index
  field of the blocker, and the table of indexed records exists, \<open>unindex\<close> with an id
  that is not a key of \<open>indexed_data\<close> raises \<open>KeyError\<close>, and by then the postings of
  all the given ids have been deleted from the table and the deletion committed.
\<close>

theorem unindex_unknown_id_not_atomic:
  assumes "blocker g = Some b"
    and "\<forall>field \<in> set (index_fields B b). \<forall>record \<in> snd ` set data. map_of record field \<noteq> None"
    and "indexed_records g = Some table"
    and "\<exists>k \<in> fst ` set data. indexed_data g k = None"
  shows "snd (unindex B g data) = Some KeyError
       \<and> indexed_records (fst (unindex B g data)) = Some (delete_record_ids table (map fst data))
       \<and> committed_records (fst (unindex B g data))
           = Some (delete_record_ids table (map fst data))
       \<and> (\<forall>row \<in> set table. snd row \<in> fst ` set data \<longrightarrow>
             row \<notin> set (delete_record_ids table (map fst data)))"
proof -
  from assms(2) have "snd (unindex_fields B b (index_fields B b) (map snd data)) = None"
    by (intro unindex_fields_succeeds) simp
  then obtain b1 where u: "unindex_fields B b (index_fields B b) (map snd data) = (b1, None)"
    by (cases "unindex_fields B b (index_fields B b) (map snd data)") simp
  from assms(4) have "snd (del_keys (indexed_data g) (map fst data)) = Some KeyError"
    by (intro del_keys_missing) simp
  then show ?thesis
    by (simp add: unindex_deleted [OF assms(1) u assms(3)] set_delete_record_ids)
qed

lemma unindex_known_and_unknown:
  "unindex field_blocking pat_gazetteer known_and_unknown =
     (pat_gazetteer\<lparr>blocker := Some (), indexed_records := Some [], committed_records := Some [],
                     indexed_data := Map.empty\<rparr>, Some KeyError)"
proof -
  have u: "unindex_fields field_blocking () (index_fields field_blocking ())
             (map snd known_and_unknown) = ((), None)"
    by (simp add: field_blocking_def)
  have d: "delete_record_ids [(''name:Pat'', 10::int)] (map fst known_and_unknown) = []"
    by (simp add: delete_record_ids_def known_and_unknown_def)
  have k: "del_keys [10 \<mapsto> [(''name'', ''Pat'')]] (map fst known_and_unknown)
         = (Map.empty, Some KeyError)"
    by (simp add: known_and_unknown_def)
  show ?thesis
    using unindex_deleted [OF pat_gazetteer_fields(1) u pat_gazetteer_fields(5)]
    by (simp add: d k pat_gazetteer_fields)
qed

theorem unindex_unknown_id_not_atomic_witness:
  "snd (unindex field_blocking pat_gazetteer known_and_unknown) = Some KeyError
   \<and> indexed_records (fst (unindex field_blocking pat_gazetteer known_and_unknown)) = Some []
   \<and> committed_records (fst (unindex field_blocking pat_gazetteer known_and_unknown)) = Some []
   \<and> indexed_data (fst (unindex field_blocking pat_gazetteer known_and_unknown)) 10 = None"
proof -
  have f: "\<forall>field \<in> set (index_fields field_blocking ()).
             \<forall>record \<in> snd ` set known_and_unknown. map_of record field \<noteq> None"
    by (simp add: field_blocking_def)
  have m: "\<exists>k \<in> fst ` set known_and_unknown. indexed_data pat_gazetteer k = None"
    by (simp add: known_and_unknown_def pat_gazetteer_fields)
  have d: "delete_record_ids [(''name:Pat'', 10::int)] (map fst known_and_unknown) = []"
    by (simp add: delete_record_ids_def known_and_unknown_def)
  from unindex_unknown_id_not_atomic [OF pat_gazetteer_fields(1) f pat_gazetteer_fields(5) m]
  show ?thesis
    by (simp add: d unindex_known_and_unknown)
qed

text \<open>
  On a gazetteer that has never indexed anything the table does not exist: the
  \<^verbatim>\<open>DELETE\<close> raises \<open>OperationalError\<close>, no \<open>KeyError\<close> is reached and nothing is
  committed, although the id \<open>10\<close> is not indexed.
\<close>

theorem unindex_without_table_counterexample:
  "snd (unindex field_blocking fresh_gazetteer canonical_pat)
     = Some (OperationalError ''no such table: indexed_records'')
   \<and> indexed_data fresh_gazetteer 10 = None
   \<and> committed_records (fst (unindex field_blocking fresh_gazetteer canonical_pat)) = None"
proof -
  have b: "blocker fresh_gazetteer = Some ()" and t: "indexed_records fresh_gazetteer = None"
    and d: "indexed_data fresh_gazetteer = Map.empty"
    and c: "committed_records fresh_gazetteer = None"
    by (simp_all add: fresh_gazetteer_def)
  have u: "unindex_fields field_blocking () (index_fields field_blocking ())
             (map snd canonical_pat) = ((), None)"
    by (simp add: field_blocking_def)
  have "unindex field_blocking fresh_gazetteer canonical_pat
      = (fresh_gazetteer\<lparr>blocker := Some ()\<rparr>,
         Some (OperationalError ''no such table: indexed_records''))"
    by (simp add: unindex_def b u t)
  then show ?thesis by (simp add: d c)
qed

section \<open>Pair generation and partition: when they run to the end\<close>

lemma yield_record_pairs_complete:
  "\<forall>(a, b) \<in> set ps. a \<in> fst ` set data \<and> b \<in> fst ` set data \<Longrightarrow>
   raised (yield_record_pairs data ps) = None
   \<and> pair_ids (yielded (yield_record_pairs data ps)) = ps"
proof (induction ps)
  case Nil
  show ?case by (simp add: raised_def yielded_def pair_ids_def)
next
  case (Cons p ps)
  obtain a b where p: "p = (a, b)" by (cases p)
  from Cons.prems p obtain ra rb where r: "map_of data a = Some ra" "map_of data b = Some rb"
    by (metis (no_types, lifting) case_prodD list.set_intros(1) map_of_eq_None_iff not_Some_eq)
  from Cons have "raised (yield_record_pairs data ps) = None
    \<and> pair_ids (yielded (yield_record_pairs data ps)) = ps" by simp
  then show ?case
    by (auto simp: p r raised_def yielded_def pair_ids_def split: prod.splits)
qed

lemma set_select_distinct_self_join:
  "set (select_distinct_self_join t) = {(a, b). a < b \<and> (\<exists>k. (k, a) \<in> set t \<and> (k, b) \<in> set t)}"
  by (auto simp: select_distinct_self_join_def) force

lemma pairs_complete:
  fixes data :: "('id::linorder, 'r) data"
  assumes "blocker m = Some b" and "sqlite_id_type data = Inr id_type"
    and "snd ` set (call B (indexAll B b data) data False) \<subseteq> fst ` set data"
  shows "raised (fst (pairs B sqlite_id_type m data)) = None
       \<and> set (pair_ids (yielded (fst (pairs B sqlite_id_type m data))))
           = {(x, y). x < y \<and> (\<exists>k. (k, x) \<in> set (call B (indexAll B b data) data False)
                                  \<and> (k, y) \<in> set (call B (indexAll B b data) data False))}"
proof -
  let ?t = "call B (indexAll B b data) data False"
  have "\<forall>(a, b) \<in> set (select_distinct_self_join ?t). a \<in> fst ` set data \<and> b \<in> fst ` set data"
    using assms(3) by (auto simp: set_select_distinct_self_join) force+
  from yield_record_pairs_complete [OF this] show ?thesis
    by (simp add: pairs_def assms(1,2) Let_def set_select_distinct_self_join)
qed

lemma partition_data_returns:
  fixes data :: "('id::linorder, 'r) data"
  assumes "blocker m = Some b" and "sqlite_id_type data = Inr id_type"
    and "snd ` set (call B (indexAll B b data) data False) \<subseteq> fst ` set data"
    and "data_model m = Some dm" and "classifier m = Some clf"
    and "scoreDuplicates (yielded (fst (pairs B sqlite_id_type m data))) dm clf (num_cores m) 0
           = Inr pair_scores"
  shows "partition_data B sqlite_id_type scoreDuplicates cluster m data threshold
           = Inr (add_singletons data (cluster pair_scores threshold))"
proof -
  obtain g m1 where p: "pairs B sqlite_id_type m data = (g, m1)" by (cases "pairs B sqlite_id_type m data")
  from pairs_complete [of m b sqlite_id_type data id_type B, OF assms(1-3)] p
  have r: "raised g = None" by simp
  from p assms(1,2) have m1: "data_model m1 = data_model m" "classifier m1 = classifier m"
    "num_cores m1 = num_cores m"
    by (auto simp: pairs_def Let_def)
  from assms(6) p have "score scoreDuplicates m1 (yielded g) 0 = Inr pair_scores"
    by (simp add: score_def m1 assms(4,5))
  then show ?thesis by (simp add: partition_data_def p r)
qed

end
